theory Spec2Isabelle
  imports Complex_Main "HOL-Library.Sublist" "HOL-Library.Log_Nat"
begin

section \<open>Python values used by main.py\<close>

text \<open>
  \<^verbatim>\<open>main.py\<close> formats integers with f-strings, divides and compares numbers, and
  converts a float to an integer. This section embeds those primitives.

  A Python \<^verbatim>\<open>int\<close> is an \<^typ>\<open>int\<close>. A Python \<^verbatim>\<open>float\<close> is an IEEE double: either
  a finite value, which is a rational number, or one of the three special values.
  \<open>Finite r\<close> ranges over all rationals, a superset of the doubles; the operations
  \<^verbatim>\<open>human_bytes\<close> applies to a float (comparison with a constant, division by 1024 of
  a value that is at least 1024, formatting) are exact on doubles, so on a double the
  embedding computes what Python computes.
\<close>

datatype pyfloat = Finite rat | PosInf | NegInf | NaN

text \<open>An exception is kept as its class, as far as \<^verbatim>\<open>DLWorker.run\<close> tells classes
  apart (\<^verbatim>\<open>yt_dlp.utils.DownloadError\<close> or any other \<^verbatim>\<open>Exception\<close>), and the text
  \<^verbatim>\<open>str(e)\<close>.\<close>

datatype exn = DownloadError string | OtherError string

subsection \<open>\<^verbatim>\<open>str(int)\<close>\<close>

definition digit_char :: "nat \<Rightarrow> char" where
  "digit_char d = ''0123456789'' ! d"

function str_nat :: "nat \<Rightarrow> string" where
  "str_nat n = (if n < 10 then [digit_char n] else str_nat (n div 10) @ [digit_char (n mod 10)])"
  by pat_completeness auto
termination
  by (relation "measure id") auto

declare str_nat.simps [simp del]

definition py_str_int :: "int \<Rightarrow> string" where
  "py_str_int i = (if i < 0 then ''-'' @ str_nat (nat (- i)) else str_nat (nat i))"

subsection \<open>Float truth value, comparisons and the format \<^verbatim>\<open>.1f\<close>\<close>

text \<open>\<^verbatim>\<open>not n\<close> holds of a float exactly when it is zero; NaN and the infinities are
  true. Every comparison with NaN is false.\<close>

fun float_truthy :: "pyfloat \<Rightarrow> bool" where
  "float_truthy (Finite r) = (r \<noteq> 0)"
| "float_truthy _ = True"

fun float_le_zero :: "pyfloat \<Rightarrow> bool" where
  "float_le_zero (Finite r) = (r \<le> 0)"
| "float_le_zero NegInf = True"
| "float_le_zero _ = False"

fun float_ge_1024 :: "pyfloat \<Rightarrow> bool" where
  "float_ge_1024 (Finite r) = (1024 \<le> r)"
| "float_ge_1024 PosInf = True"
| "float_ge_1024 _ = False"

fun float_div_1024 :: "pyfloat \<Rightarrow> pyfloat" where
  "float_div_1024 (Finite r) = Finite (r / 1024)"
| "float_div_1024 x = x"

text \<open>Rounding to the nearest integer, a tie going to the even neighbour: the rule of
  Python's float formatting and of IEEE arithmetic.\<close>

definition round_half_even :: "rat \<Rightarrow> int" where
  "round_half_even x =
     (let f = \<lfloor>x\<rfloor>; d = x - of_int f
      in if d < 1 / 2 then f else if 1 / 2 < d then f + 1 else if even f then f else f + 1)"

text \<open>\<^verbatim>\<open>f"{n:.1f}"\<close>: the value rounded to one decimal, written as its integer digits,
  a point and one digit.\<close>

definition format_1f_abs :: "rat \<Rightarrow> string" where
  "format_1f_abs r =
     (let t = nat (round_half_even (r * 10)) in str_nat (t div 10) @ ''.'' @ str_nat (t mod 10))"

fun format_1f :: "pyfloat \<Rightarrow> string" where
  "format_1f (Finite r) = (if r < 0 then ''-'' @ format_1f_abs (- r) else format_1f_abs r)"
| "format_1f PosInf = ''inf''"
| "format_1f NegInf = ''-inf''"
| "format_1f NaN = ''nan''"

subsection \<open>True division of integers and \<^verbatim>\<open>int(float)\<close>\<close>

text \<open>
  \<^verbatim>\<open>a / b\<close> on two Python ints is the double nearest to the exact quotient, a tie
  going to the even significand; it raises \<^verbatim>\<open>ZeroDivisionError\<close> for a zero divisor and
  \<^verbatim>\<open>OverflowError\<close> when the rounded quotient is beyond the largest double.

  \<open>floor_log2 q\<close> is the binary exponent of a positive rational: the \<open>e\<close> with
  \<open>2\<^sup>e \<le> q < 2\<^sup>e\<^sup>+\<^sup>1\<close>. A double has 53 significant bits, so the doubles around
  \<open>q\<close> are the multiples of \<open>2\<^sup>e\<^sup>-\<^sup>5\<^sup>2\<close>; below the smallest normal exponent, \<open>-1022\<close>,
  the spacing stays that of the subnormal numbers. \<open>round_double\<close> rounds to the
  nearest such multiple.
\<close>

definition floor_log2 :: "rat \<Rightarrow> int" where
  "floor_log2 q =
     (case quotient_of q of (n, d) \<Rightarrow>
        (let e = bitlen n - bitlen d in if 2 powi e \<le> q then e else e - 1))"

definition round_double :: "rat \<Rightarrow> rat" where
  "round_double q =
     (if q = 0 then 0
      else (let a = \<bar>q\<bar>; e = max (floor_log2 a) (- 1022); u = 2 powi (e - 52)
            in sgn q * of_int (round_half_even (a / u)) * u))"

definition py_truediv :: "int \<Rightarrow> int \<Rightarrow> exn + rat" where
  "py_truediv a b =
     (if b = 0 then Inl (OtherError ''division by zero'')
      else (let r = round_double (of_int a / of_int b)
            in if 2 ^ 1024 \<le> \<bar>r\<bar>
               then Inl (OtherError ''integer division result too large for a float'')
               else Inr r))"

text \<open>\<^verbatim>\<open>int(x)\<close> on a finite float drops the fraction, rounding towards zero.\<close>

definition py_int :: "rat \<Rightarrow> int" where
  "py_int r = (if 0 \<le> r then \<lfloor>r\<rfloor> else \<lceil>r\<rceil>)"

section \<open>\<^verbatim>\<open>build_format\<close>\<close>

text \<open>
  \<^verbatim>\<open>return f"bv*[height<={max_res}]+ba/b[height<={max_res}]" if max_res else "bv*+ba/b"\<close>

  The condition is the truth value of \<^verbatim>\<open>max_res\<close>: \<^verbatim>\<open>None\<close> and \<^verbatim>\<open>0\<close> are false, every
  other integer is true.
\<close>

definition build_format :: "int option \<Rightarrow> string" where
  "build_format max_res =
     (case max_res of
        None \<Rightarrow> ''bv*+ba/b''
      | Some r \<Rightarrow>
          if r \<noteq> 0
          then ''bv*[height<='' @ py_str_int r @ '']+ba/b[height<='' @ py_str_int r @ '']''
          else ''bv*+ba/b'')"

subsection \<open>Properties of \<^verbatim>\<open>build_format\<close>\<close>

lemma build_format_capped:
  "r \<noteq> 0 \<Longrightarrow>
   build_format (Some r) = ''bv*[height<='' @ py_str_int r @ '']+ba/b[height<='' @ py_str_int r @ '']''"
  by (simp add: build_format_def)

lemma build_format_uncapped:
  "build_format None = ''bv*+ba/b''" "build_format (Some 0) = ''bv*+ba/b''"
  by (simp_all add: build_format_def)

lemma no_height_in_uncapped: "\<not> sublist ''height'' ''bv*+ba/b''"
  by (simp add: sublist_Cons_right)

text \<open>
  Claim C6, as the code has it. For every cap \<open>r\<close> that is an integer other than
  zero, the selector is the capped template with the decimal text of \<open>r\<close> in both
  height filters, so it contains the height filter \<^verbatim>\<open>[height<=r]\<close>. For no cap, and
  for the cap zero, which the truth test sends down the same branch, the selector is
  \<^verbatim>\<open>bv*+ba/b\<close> and contains no height filter. \<open>build_format\<close> is a total function of
  its argument alone.
\<close>

theorem build_format_height_filter:
  "(r \<noteq> 0 \<longrightarrow>
      build_format (Some r)
        = ''bv*[height<='' @ py_str_int r @ '']+ba/b[height<='' @ py_str_int r @ '']''
      \<and> sublist (''[height<='' @ py_str_int r @ '']'') (build_format (Some r)))
   \<and> \<not> sublist ''height'' (build_format None)
   \<and> \<not> sublist ''height'' (build_format (Some 0))"
proof -
  have "sublist (''[height<='' @ py_str_int r @ '']'') (build_format (Some r))" if "r \<noteq> 0"
  proof -
    have "build_format (Some r)
          = ''bv*'' @ (''[height<='' @ py_str_int r @ '']'') @ (''+ba/b[height<='' @ py_str_int r @ '']'')"
      using that by (simp add: build_format_capped)
    then show ?thesis
      by (simp only: sublist_appendI)
  qed
  then show ?thesis
    by (simp add: build_format_capped build_format_uncapped no_height_in_uncapped)
qed

theorem build_format_height_filter_witness:
  "(1080 :: int) \<noteq> 0
   \<and> build_format (Some 1080) = ''bv*[height<=1080]+ba/b[height<=1080]''
   \<and> sublist ''[height<=1080]'' (build_format (Some 1080))"
proof -
  have s: "py_str_int 1080 = ''1080''"
    by code_simp
  have "(1080 :: int) \<noteq> 0"
    by simp
  with build_format_height_filter [of 1080]
  have "build_format (Some 1080)
          = ''bv*[height<='' @ py_str_int 1080 @ '']+ba/b[height<='' @ py_str_int 1080 @ '']''
        \<and> sublist (''[height<='' @ py_str_int 1080 @ '']'') (build_format (Some 1080))"
    by blast
  then show ?thesis
    unfolding s by auto
qed

text \<open>The claim as the specification words it fails at the cap zero, which is not
  none: the selector then holds no decimal text of the cap at all.\<close>

theorem build_format_zero_cap_counterexample:
  "\<not> sublist (py_str_int 0) (build_format (Some 0))"
proof -
  have "py_str_int 0 = ''0''"
    by code_simp
  then show ?thesis
    by (simp add: build_format_uncapped sublist_Cons_right)
qed

section \<open>\<^verbatim>\<open>human_bytes\<close>\<close>

text \<open>
  \<^verbatim>\<open>
  def human_bytes(n):
      if not n or n <= 0: return "0 B"
      units = ["B","KB","MB","GB","TB"]; i = 0
      while n >= 1024 and i < len(units)-1: n/=1024; i+=1
      return f"{n:.1f} {units[i]}"
  \<close>
  The \<^verbatim>\<open>while\<close> loop is \<open>human_loop\<close>; it terminates because \<open>i\<close> grows towards
  \<^verbatim>\<open>len(units)-1\<close>.
\<close>

definition units :: "string list" where
  "units = [''B'', ''KB'', ''MB'', ''GB'', ''TB'']"

function human_loop :: "pyfloat \<Rightarrow> nat \<Rightarrow> pyfloat \<times> nat" where
  "human_loop n i =
     (if float_ge_1024 n \<and> i < length units - 1 then human_loop (float_div_1024 n) (i + 1)
      else (n, i))"
  by pat_completeness auto
termination
  by (relation "measure (\<lambda>(n, i). length units - 1 - i)") auto

declare human_loop.simps [simp del]

definition human_bytes :: "pyfloat option \<Rightarrow> string" where
  "human_bytes n =
     (case n of
        None \<Rightarrow> ''0 B''
      | Some x \<Rightarrow>
          if \<not> float_truthy x \<or> float_le_zero x then ''0 B''
          else (case human_loop x 0 of (y, i) \<Rightarrow> format_1f y @ '' '' @ units ! i))"

subsection \<open>Properties of \<^verbatim>\<open>human_bytes\<close>\<close>




lemma human_bytes_le_zero: "float_le_zero x \<Longrightarrow> human_bytes (Some x) = ''0 B''"
  by (simp add: human_bytes_def)





section \<open>Facts about rounding to a double\<close>

subsection \<open>The binary exponent\<close>







subsection \<open>Rounding to the nearest integer\<close>







subsection \<open>Rounding to the nearest double\<close>



lemma round_double_zero [simp]: "round_double 0 = 0"
  by (simp add: round_double_def)








subsection \<open>When the integer part of a rounded quotient is the floor\<close>






section \<open>\<^verbatim>\<open>DLWorker\<close>\<close>

subsection \<open>Signals\<close>

text \<open>
  The worker talks to the window through two Qt signals: \<^verbatim>\<open>sig_update(int, dict)\<close> and
  \<^verbatim>\<open>sig_done()\<close>. A run is observed as the list of signals it emits, in order. The
  dictionaries the worker emits use five keys; a key that a dictionary does not have
  is \<open>None\<close> in the record.
\<close>

record payload =
  status :: "string option"
  progress :: "int option"
  speed :: "string option"
  title :: "string option"
  error :: "string option"

definition no_keys :: payload where
  "no_keys = \<lparr>status = None, progress = None, speed = None, title = None, error = None\<rparr>"

datatype signal = Sig_update nat payload | Sig_done

subsection \<open>The progress hook\<close>

text \<open>
  \<^verbatim>\<open>
  def hook(d):
      st = d.get("status")
      if st == "downloading":
          total = d.get("total_bytes") or d.get("total_bytes_estimate") or 0
          got = d.get("downloaded_bytes") or 0
          pct = int(got*100/total) if total else 0
          self.sig_update.emit(i, {"status":"Downloading", "progress":pct,
              "speed": f"{human_bytes(d.get('speed'))}/s" if d.get("speed") else ""})
      elif st == "finished":
          self.sig_update.emit(i, {"status":"Merging","progress":100})
  \<close>
  The dictionary \<open>d\<close> comes from the download library. The record holds the keys the
  hook reads; \<open>None\<close> stands for a key that is missing or whose value is \<^verbatim>\<open>None\<close>, which
  \<^verbatim>\<open>d.get\<close> does not tell apart. Byte counts are Python ints and the speed is a
  float. \<^verbatim>\<open>x or y\<close> yields \<open>x\<close> when \<open>x\<close> is true (here: an int other than zero) and
  \<open>y\<close> otherwise.

  The hook returns the signals it emits, or the exception it raises: the true
  division raises \<^verbatim>\<open>OverflowError\<close> when the quotient is too large for a float, and then
  nothing is emitted.
\<close>

record progress_dict =
  d_status :: "string option"
  d_total_bytes :: "int option"
  d_total_bytes_estimate :: "int option"
  d_downloaded_bytes :: "int option"
  d_speed :: "pyfloat option"

definition int_truthy :: "int option \<Rightarrow> bool" where
  "int_truthy v = (case v of None \<Rightarrow> False | Some n \<Rightarrow> n \<noteq> 0)"

definition speed_truthy :: "pyfloat option \<Rightarrow> bool" where
  "speed_truthy v = (case v of None \<Rightarrow> False | Some x \<Rightarrow> float_truthy x)"

definition hook_total :: "progress_dict \<Rightarrow> int" where
  "hook_total d =
     (if int_truthy (d_total_bytes d) then the (d_total_bytes d)
      else if int_truthy (d_total_bytes_estimate d) then the (d_total_bytes_estimate d)
      else 0)"

definition hook_got :: "progress_dict \<Rightarrow> int" where
  "hook_got d = (if int_truthy (d_downloaded_bytes d) then the (d_downloaded_bytes d) else 0)"

definition hook_pct :: "progress_dict \<Rightarrow> exn + int" where
  "hook_pct d =
     (if hook_total d \<noteq> 0
      then (case py_truediv (hook_got d * 100) (hook_total d) of
              Inl e \<Rightarrow> Inl e
            | Inr q \<Rightarrow> Inr (py_int q))
      else Inr 0)"

definition hook_speed :: "progress_dict \<Rightarrow> string" where
  "hook_speed d = (if speed_truthy (d_speed d) then human_bytes (d_speed d) @ ''/s'' else [])"

definition hook :: "nat \<Rightarrow> progress_dict \<Rightarrow> exn + signal list" where
  "hook i d =
     (if d_status d = Some ''downloading''
      then (case hook_pct d of
              Inl e \<Rightarrow> Inl e
            | Inr pct \<Rightarrow>
                Inr [Sig_update i (no_keys\<lparr>status := Some ''Downloading'', progress := Some pct,
                                            speed := Some (hook_speed d)\<rparr>)])
      else if d_status d = Some ''finished''
      then Inr [Sig_update i (no_keys\<lparr>status := Some ''Merging'', progress := Some 100\<rparr>)]
      else Inr [])"

subsection \<open>One item\<close>

text \<open>
  \<^verbatim>\<open>
  self.sig_update.emit(i, {"status":"Starting","progress":0})
  opts = dict(base); opts["progress_hooks"] = [hook]
  try:
      with yt_dlp.YoutubeDL(opts) as ydl:
          try:
              info = ydl.extract_info(url, download=False, process=False)
              if info and info.get("title"):
                  self.sig_update.emit(i, {"title": info["title"]})
          except Exception:
              pass
          ydl.download([url])
          self.sig_update.emit(i, {"status":"Done","progress":100})
  except yt_dlp.utils.DownloadError as e:
      self.sig_update.emit(i, {"status":"Error", "error": f"Download failed: {str(e)}"})
  except Exception as e:
      self.sig_update.emit(i, {"status":"Error", "error": f"An unexpected error occurred: {str(e)}"})
  \<close>
  The download library is not part of the program. What it does for one item is a
  \<open>session\<close>: the result of the title probe \<^verbatim>\<open>extract_info\<close> (an exception, or the
  info dictionary, of which the worker reads the key \<^verbatim>\<open>title\<close>; no dictionary and an
  empty one are both false), the dictionaries it passes to the progress hook while
  \<^verbatim>\<open>download\<close> runs, in order, and how \<^verbatim>\<open>download\<close> ends: by returning (\<open>None\<close>) or by
  raising. When the hook itself raises, the library decides what follows (whether it
  goes on, and how \<^verbatim>\<open>download\<close> ends); that too is part of the session, so the model
  only records that a raising hook call emits nothing. Opening and closing the
  \<^verbatim>\<open>YoutubeDL\<close> object is taken not to raise.
\<close>

record info =
  info_title :: "string option"

datatype probe_result = Probe_raises exn | Probe_returns "info option"

record session =
  probe :: probe_result
  callbacks :: "progress_dict list"
  outcome :: "exn option"

definition probe_events :: "nat \<Rightarrow> probe_result \<Rightarrow> signal list" where
  "probe_events i p =
     (case p of
        Probe_raises e \<Rightarrow> []
      | Probe_returns None \<Rightarrow> []
      | Probe_returns (Some nfo) \<Rightarrow>
          (case info_title nfo of
             None \<Rightarrow> []
           | Some t \<Rightarrow> if t \<noteq> [] then [Sig_update i (no_keys\<lparr>title := Some t\<rparr>)] else []))"

definition download_events :: "nat \<Rightarrow> progress_dict list \<Rightarrow> signal list" where
  "download_events i ds = concat (map (\<lambda>d. case hook i d of Inl e \<Rightarrow> [] | Inr evs \<Rightarrow> evs) ds)"

definition finish_event :: "nat \<Rightarrow> exn option \<Rightarrow> signal" where
  "finish_event i r =
     (case r of
        None \<Rightarrow> Sig_update i (no_keys\<lparr>status := Some ''Done'', progress := Some 100\<rparr>)
      | Some (DownloadError m) \<Rightarrow>
          Sig_update i (no_keys\<lparr>status := Some ''Error'', error := Some (''Download failed: '' @ m)\<rparr>)
      | Some (OtherError m) \<Rightarrow>
          Sig_update i (no_keys\<lparr>status := Some ''Error'',
                                   error := Some (''An unexpected error occurred: '' @ m)\<rparr>))"

definition run_item :: "nat \<Rightarrow> session \<Rightarrow> signal list" where
  "run_item i s =
     Sig_update i (no_keys\<lparr>status := Some ''Starting'', progress := Some 0\<rparr>)
       # probe_events i (probe s) @ download_events i (callbacks s) @ [finish_event i (outcome s)]"

subsection \<open>The worker and its loop\<close>

text \<open>
  \<^verbatim>\<open>
  def __init__(self, rows, opts):
      self.rows = rows; self.opts = opts; self._stop = False
  def stop(self): self._stop = True
  def run(self):
      base = dict(self.opts)
      for i, row in enumerate(self.rows):
          if self._stop: break
          url = row["url"]
          ... the item ...
      self.sig_done.emit()
  \<close>
  The field \<^verbatim>\<open>_stop\<close> is \<open>stop_flag\<close>. The window calls \<^verbatim>\<open>stop()\<close> from its own thread
  while \<^verbatim>\<open>run\<close> executes; since the loop reads the flag only at the head of an
  iteration, all that matters of a call is between which two reads it falls. The
  \<open>world\<close> of a run gives, beside the library's behaviour for the item at each position,
  \<open>stop_requested i\<close>: whether \<^verbatim>\<open>stop()\<close> is called after the read that started item \<open>i\<close>
  and before the next read. A call before the first read is a worker that starts with
  the flag set. \<open>run\<close> returns the signals emitted and the worker as the run leaves it.
\<close>

record row =
  url :: string

record 'o dlworker =
  rows :: "row list"
  opts :: 'o
  stop_flag :: bool

definition init :: "row list \<Rightarrow> 'o \<Rightarrow> 'o dlworker" where
  "init rs os = \<lparr>rows = rs, opts = os, stop_flag = False\<rparr>"

definition stop :: "'o dlworker \<Rightarrow> 'o dlworker" where
  "stop w = w\<lparr>stop_flag := True\<rparr>"

record 'o world =
  library :: "'o \<Rightarrow> nat \<Rightarrow> string \<Rightarrow> session"
  stop_requested :: "nat \<Rightarrow> bool"

fun run_loop :: "'o world \<Rightarrow> 'o dlworker \<Rightarrow> nat \<Rightarrow> row list \<Rightarrow> signal list \<times> 'o dlworker" where
  "run_loop env w i [] = ([], w)"
| "run_loop env w i (r # rest) =
     (if stop_flag w then ([], w)
      else (let evs = run_item i (library env (opts w) i (url r));
                w' = (if stop_requested env i then stop w else w);
                (tr, w'') = run_loop env w' (Suc i) rest
            in (evs @ tr, w'')))"

definition run :: "'o world \<Rightarrow> 'o dlworker \<Rightarrow> signal list \<times> 'o dlworker" where
  "run env w = (case run_loop env w 0 (rows w) of (tr, w') \<Rightarrow> (tr @ [Sig_done], w'))"

subsection \<open>Observations on a run\<close>

text \<open>
  A per-item terminal event is an update whose status is \<^verbatim>\<open>Done\<close> or \<^verbatim>\<open>Error\<close>.
  \<open>item_of\<close> is the row index an update carries, \<open>update_items\<close> the indices of the
  updates of a trace in the order of emission. \<open>item_trace env w j\<close> is what the worker
  emits for row \<open>j\<close> when it processes it. \<open>stop_visible env w k\<close> says that the flag is
  set when the loop reads it before item \<open>k\<close>: the worker started with it set, or a
  request fell into one of the items before \<open>k\<close>.
\<close>

definition terminal :: "signal \<Rightarrow> bool" where
  "terminal s =
     (case s of
        Sig_update i p \<Rightarrow> status p = Some ''Done'' \<or> status p = Some ''Error''
      | Sig_done \<Rightarrow> False)"

definition item_of :: "signal \<Rightarrow> nat option" where
  "item_of s = (case s of Sig_update i p \<Rightarrow> Some i | Sig_done \<Rightarrow> None)"

definition has_title :: "signal \<Rightarrow> bool" where
  "has_title s = (case s of Sig_update i p \<Rightarrow> title p \<noteq> None | Sig_done \<Rightarrow> False)"

definition has_error :: "signal \<Rightarrow> bool" where
  "has_error s = (case s of Sig_update i p \<Rightarrow> error p \<noteq> None | Sig_done \<Rightarrow> False)"

fun update_items :: "signal list \<Rightarrow> nat list" where
  "update_items [] = []"
| "update_items (Sig_update i p # tr) = i # update_items tr"
| "update_items (Sig_done # tr) = update_items tr"

definition item_trace :: "'o world \<Rightarrow> 'o dlworker \<Rightarrow> nat \<Rightarrow> signal list" where
  "item_trace env w j = run_item j (library env (opts w) j (url (rows w ! j)))"

definition stop_visible :: "'o world \<Rightarrow> 'o dlworker \<Rightarrow> nat \<Rightarrow> bool" where
  "stop_visible env w k = (stop_flag w \<or> list_ex (stop_requested env) [0..<k])"

definition items_from :: "'o world \<Rightarrow> 'o \<Rightarrow> nat \<Rightarrow> row list \<Rightarrow> nat \<Rightarrow> signal list" where
  "items_from env os i rs m =
     concat (map (\<lambda>j. run_item (i + j) (library env os (i + j) (url (rs ! j)))) [0..<m])"




subsection \<open>A run of two rows\<close>

text \<open>The first row downloads, with a title, one progress report and the end of the
  transfer; the title probe of the second fails and its download raises
  \<^verbatim>\<open>DownloadError\<close>. \<open>untitled_session t\<close> is an item whose probe returns an info
  dictionary with the title entry \<open>t\<close> and whose download returns at once. In
  \<open>quiet_world\<close> nobody asks to stop; in \<open>stopping_world\<close> the stop button is pressed
  while the first row downloads.\<close>

definition demo_rows :: "row list" where
  "demo_rows = [\<lparr>url = ''https://example.org/a''\<rparr>, \<lparr>url = ''https://example.org/b''\<rparr>]"

definition demo_session_ok :: session where
  "demo_session_ok =
     \<lparr>probe = Probe_returns (Some \<lparr>info_title = Some ''A''\<rparr>),
      callbacks =
        [\<lparr>d_status = Some ''downloading'', d_total_bytes = Some 200, d_total_bytes_estimate = None,
          d_downloaded_bytes = Some 100, d_speed = Some (Finite 1536)\<rparr>,
         \<lparr>d_status = Some ''finished'', d_total_bytes = Some 200, d_total_bytes_estimate = None,
          d_downloaded_bytes = Some 200, d_speed = None\<rparr>],
      outcome = None\<rparr>"

definition demo_session_failed :: session where
  "demo_session_failed =
     \<lparr>probe = Probe_raises (OtherError ''timed out''), callbacks = [],
      outcome = Some (DownloadError ''blocked'')\<rparr>"

definition untitled_session :: "string option \<Rightarrow> session" where
  "untitled_session t =
     \<lparr>probe = Probe_returns (Some \<lparr>info_title = t\<rparr>), callbacks = [], outcome = None\<rparr>"

definition demo_library :: "unit \<Rightarrow> nat \<Rightarrow> string \<Rightarrow> session" where
  "demo_library os i u = (if i = 0 then demo_session_ok else demo_session_failed)"

definition demo_worker :: "unit dlworker" where
  "demo_worker = init demo_rows ()"

definition quiet_world :: "unit world" where
  "quiet_world = \<lparr>library = demo_library, stop_requested = (\<lambda>i. False)\<rparr>"

definition stopping_world :: "unit world" where
  "stopping_world = \<lparr>library = demo_library, stop_requested = (\<lambda>i. i = 0)\<rparr>"




subsection \<open>Facts about one item\<close>

lemma filter_none: "(\<And>x. x \<in> set xs \<Longrightarrow> \<not> P x) \<Longrightarrow> filter P xs = []"
  by (induction xs) auto

lemma filter_all: "(\<And>x. x \<in> set xs \<Longrightarrow> P x) \<Longrightarrow> filter P xs = xs"
  by (induction xs) auto

lemma item_of_done [simp]: "item_of Sig_done = None"
  by (simp add: item_of_def)

lemma terminal_done [simp]: "\<not> terminal Sig_done"
  by (simp add: terminal_def)

lemma hook_events:
  assumes "hook i d = Inr evs" "s \<in> set evs"
  shows "item_of s = Some i" "\<not> terminal s" "\<not> has_title s" "s \<noteq> Sig_done"
  using assms
  by (auto simp: hook_def item_of_def terminal_def has_title_def no_keys_def
           split: if_splits sum.splits)

lemma hook_no_error: "hook i d = Inr evs \<Longrightarrow> s \<in> set evs \<Longrightarrow> \<not> has_error s"
  by (auto simp: hook_def has_error_def no_keys_def split: if_splits sum.splits)

lemma download_events_props:
  assumes "s \<in> set (download_events i ds)"
  shows "item_of s = Some i" "\<not> terminal s" "\<not> has_title s" "s \<noteq> Sig_done"
proof -
  from assms obtain d evs where "hook i d = Inr evs" "s \<in> set evs"
    by (auto simp: download_events_def split: sum.splits dest: sym)
  then show "item_of s = Some i" "\<not> terminal s" "\<not> has_title s" "s \<noteq> Sig_done"
    by (rule hook_events)+
qed

lemma download_events_no_error: "s \<in> set (download_events i ds) \<Longrightarrow> \<not> has_error s"
proof -
  assume "s \<in> set (download_events i ds)"
  then obtain d evs where "hook i d = Inr evs" "s \<in> set evs"
    by (auto simp: download_events_def split: sum.splits dest: sym)
  then show ?thesis
    by (rule hook_no_error)
qed

lemma probe_events_props:
  assumes "s \<in> set (probe_events i p)"
  shows "item_of s = Some i" "\<not> terminal s" "has_title s" "s \<noteq> Sig_done"
  using assms
  by (auto simp: probe_events_def item_of_def terminal_def has_title_def no_keys_def
           split: probe_result.splits option.splits if_splits dest: sym)

lemma finish_event_props:
  "item_of (finish_event i r) = Some i" "terminal (finish_event i r)"
  "\<not> has_title (finish_event i r)" "finish_event i r \<noteq> Sig_done"
  by (auto simp: finish_event_def item_of_def terminal_def has_title_def no_keys_def
           split: option.splits exn.splits)

lemma run_item_item_of: "s \<in> set (run_item i ses) \<Longrightarrow> item_of s = Some i"
  using probe_events_props(1) download_events_props(1) finish_event_props(1)
  by (auto simp: run_item_def item_of_def)

lemma run_item_not_done: "Sig_done \<notin> set (run_item i ses)"
  using run_item_item_of [of Sig_done i ses] by (auto simp: item_of_def)

lemma run_item_last: "last (run_item i ses) = finish_event i (outcome ses)"
  by (simp add: run_item_def)

lemma run_item_terminal: "filter terminal (run_item i ses) = [finish_event i (outcome ses)]"
proof -
  have "filter terminal (probe_events i (probe ses)) = []"
    using probe_events_props(2) by (intro filter_none) blast
  moreover have "filter terminal (download_events i (callbacks ses)) = []"
    using download_events_props(2) by (intro filter_none) blast
  moreover have "\<not> terminal (Sig_update i (no_keys\<lparr>status := Some ''Starting'', progress := Some 0\<rparr>))"
    by (simp add: terminal_def no_keys_def)
  ultimately show ?thesis
    by (simp add: run_item_def finish_event_props(2))
qed

subsection \<open>Facts about the loop\<close>

lemma stop_opts [simp]: "opts (stop w) = opts w" "rows (stop w) = rows w" "stop_flag (stop w)"
  by (simp_all add: stop_def)

lemma run_loop_stopped: "stop_flag w \<Longrightarrow> run_loop env w i rs = ([], w)"
  by (cases rs) auto

lemma run_loop_step:
  "\<not> stop_flag w \<Longrightarrow>
   fst (run_loop env w i (r # rest))
   = run_item i (library env (opts w) i (url r))
     @ fst (run_loop env (if stop_requested env i then stop w else w) (Suc i) rest)"
  by (simp add: split_beta Let_def)

lemma items_from_Suc:
  "items_from env os i (r # rest) (Suc m)
   = run_item i (library env os i (url r)) @ items_from env os (Suc i) rest m"
proof -
  have "[0..<Suc m] = 0 # map Suc [0..<m]"
    by (simp add: upt_conv_Cons map_Suc_upt del: upt_Suc)
  then show ?thesis
    by (simp add: items_from_def comp_def del: upt_Suc)
qed

lemma items_from_0: "items_from env os i rs 0 = []"
  by (simp add: items_from_def)

text \<open>As long as no request arrives the loop processes every row and leaves the
  worker as it was.\<close>

lemma run_loop_no_stop:
  assumes "\<not> stop_flag w" "\<forall>j<length rs. \<not> stop_requested env (i + j)"
  shows "run_loop env w i rs = (items_from env (opts w) i rs (length rs), w)"
  using assms
proof (induction rs arbitrary: i)
  case Nil
  then show ?case by (simp add: items_from_0)
next
  case (Cons r rest)
  from Cons.prems(2) have here: "\<not> stop_requested env i"
    by (metis add.right_neutral length_greater_0_conv list.discI)
  from Cons.prems(2) have "\<forall>j<length rest. \<not> stop_requested env (Suc i + j)"
    by (metis Suc_less_eq add_Suc_shift length_Cons)
  with Cons.IH [of "Suc i"] Cons.prems(1)
  have "run_loop env w (Suc i) rest = (items_from env (opts w) (Suc i) rest (length rest), w)"
    by blast
  with here Cons.prems(1) show ?case
    by (simp add: items_from_Suc)
qed

text \<open>A request that arrives during item \<open>i + m\<close>, the first one, lets that item
  finish and ends the loop before the next.\<close>

lemma run_loop_stop_during:
  assumes "\<not> stop_flag w" "m < length rs" "\<forall>j<m. \<not> stop_requested env (i + j)"
    "stop_requested env (i + m)"
  shows "run_loop env w i rs = (items_from env (opts w) i rs (Suc m), stop w)"
  using assms
proof (induction rs arbitrary: i m)
  case Nil
  then show ?case by simp
next
  case (Cons r rest)
  show ?case
  proof (cases m)
    case 0
    with Cons.prems have "stop_requested env i" by simp
    moreover have "run_loop env (stop w) (Suc i) rest = ([], stop w)"
      by (rule run_loop_stopped) (simp add: stop_def)
    ultimately show ?thesis
      using Cons.prems(1) 0 by (simp add: items_from_Suc items_from_0 stop_def)
  next
    case (Suc m')
    with Cons.prems have here: "\<not> stop_requested env i"
      by (metis add.right_neutral zero_less_Suc)
    from Suc Cons.prems have "m' < length rest" "\<forall>j<m'. \<not> stop_requested env (Suc i + j)"
      "stop_requested env (Suc i + m')"
      by (auto simp: add_Suc_shift dest: spec [of _ "Suc _"])
    with Cons.IH [of m' "Suc i"] Cons.prems(1)
    have "run_loop env w (Suc i) rest = (items_from env (opts w) (Suc i) rest (Suc m'), stop w)"
      by blast
    with here Cons.prems(1) Suc show ?thesis
      by (simp add: items_from_Suc)
  qed
qed

lemma items_from_rows: "items_from env (opts w) 0 (rows w) m = concat (map (item_trace env w) [0..<m])"
  unfolding items_from_def item_trace_def [abs_def] by simp

lemma run_loop_worker:
  "rows (snd (run_loop env w i rs)) = rows w \<and> opts (snd (run_loop env w i rs)) = opts w
   \<and> (stop_flag w \<longrightarrow> stop_flag (snd (run_loop env w i rs)))"
proof (induction rs arbitrary: w i)
  case Nil
  then show ?case by simp
next
  case (Cons r rest)
  show ?case
  proof (cases "stop_flag w")
    case True
    then show ?thesis by (simp add: run_loop_stopped)
  next
    case False
    then have "snd (run_loop env w i (r # rest))
               = snd (run_loop env (if stop_requested env i then stop w else w) (Suc i) rest)"
      by (simp add: split_beta Let_def)
    with False Cons.IH [of "if stop_requested env i then stop w else w" "Suc i"] show ?thesis
      by (simp split: if_splits)
  qed
qed

subsection \<open>Facts about traces made of whole items\<close>

lemma update_items_append: "update_items (xs @ ys) = update_items xs @ update_items ys"
  by (induction xs rule: update_items.induct) auto

lemma update_items_same:
  "\<forall>s \<in> set tr. item_of s = Some j \<Longrightarrow> update_items tr = replicate (length tr) j"
  by (induction tr rule: update_items.induct) (auto simp: item_of_def)

lemma item_trace_item_of: "s \<in> set (item_trace env w j) \<Longrightarrow> item_of s = Some j"
  unfolding item_trace_def by (rule run_item_item_of)

lemma item_trace_terminal: "filter terminal (item_trace env w j) = [last (item_trace env w j)]"
  unfolding item_trace_def by (simp add: run_item_terminal run_item_last)

lemma item_trace_not_done: "Sig_done \<notin> set (item_trace env w j)"
  unfolding item_trace_def by (rule run_item_not_done)

lemma filter_item_trace:
  "filter (\<lambda>s. item_of s = Some j) (item_trace env w j')
   = (if j' = j then item_trace env w j' else [])"
proof (cases "j' = j")
  case True
  then show ?thesis
    using item_trace_item_of [of _ env w j] by (simp add: filter_all)
next
  case False
  then have "filter (\<lambda>s. item_of s = Some j) (item_trace env w j') = []"
    using item_trace_item_of [of _ env w j'] by (intro filter_none) auto
  with False show ?thesis by simp
qed

lemma filter_item_items:
  "filter (\<lambda>s. item_of s = Some j) (concat (map (item_trace env w) [0..<m]))
   = (if j < m then item_trace env w j else [])"
  by (induction m) (auto simp: filter_item_trace)

lemma filter_terminal_item_items:
  "filter (\<lambda>s. terminal s \<and> item_of s = Some j) (concat (map (item_trace env w) [0..<m]))
   = (if j < m then [last (item_trace env w j)] else [])"
proof -
  have "filter (\<lambda>s. terminal s \<and> item_of s = Some j) (concat (map (item_trace env w) [0..<m]))
        = filter terminal (filter (\<lambda>s. item_of s = Some j) (concat (map (item_trace env w) [0..<m])))"
    by (simp add: conj_commute)
  then show ?thesis
    by (simp add: filter_item_items item_trace_terminal)
qed

lemma terminal_count_items:
  "length (filter terminal (concat (map (item_trace env w) [0..<m]))) = m"
  by (induction m) (auto simp: item_trace_terminal)

lemma update_items_items:
  "sorted (update_items (concat (map (item_trace env w) [0..<m])))
   \<and> (\<forall>x \<in> set (update_items (concat (map (item_trace env w) [0..<m]))). x < m)"
proof (induction m)
  case 0
  then show ?case by simp
next
  case (Suc m)
  have "update_items (item_trace env w m) = replicate (length (item_trace env w m)) m"
    by (rule update_items_same) (simp add: item_trace_item_of)
  with Suc show ?case
    by (auto simp: update_items_append sorted_append less_Suc_eq)
qed

lemma done_not_in_items: "Sig_done \<notin> set (concat (map (item_trace env w) [0..<m]))"
  using item_trace_not_done by auto

lemma run_trace_no_stop:
  assumes "\<not> stop_flag w" "\<forall>i<length (rows w). \<not> stop_requested env i"
  shows "fst (run env w) = concat (map (item_trace env w) [0..<length (rows w)]) @ [Sig_done]"
  using run_loop_no_stop [of w "rows w" env 0] assms
  by (simp add: run_def items_from_rows)

lemma run_trace_first_stop:
  assumes "k \<le> length (rows w)" "stop_visible env w k" "\<forall>j<k. \<not> stop_visible env w j"
  shows "fst (run env w) = concat (map (item_trace env w) [0..<k]) @ [Sig_done]"
proof (cases k)
  case 0
  with assms(2) have "stop_flag w"
    by (simp add: stop_visible_def)
  with 0 show ?thesis
    by (simp add: run_def run_loop_stopped)
next
  case (Suc m)
  with assms(3) have "\<not> stop_visible env w 0" "\<not> stop_visible env w m"
    by auto
  then have flag: "\<not> stop_flag w" and before: "\<not> list_ex (stop_requested env) [0..<m]"
    by (simp_all add: stop_visible_def)
  from before have quiet: "\<forall>j<m. \<not> stop_requested env (0 + j)"
    by (auto simp: list_ex_iff)
  from assms(2) Suc flag before have now: "stop_requested env (0 + m)"
    by (auto simp: stop_visible_def list_ex_iff less_Suc_eq)
  from assms(1) Suc have "m < length (rows w)"
    by simp
  from run_loop_stop_during [OF flag this quiet now] Suc show ?thesis
    by (simp add: run_def items_from_rows)
qed

lemma run_trace_stop_visible:
  assumes "k \<le> length (rows w)" "stop_visible env w k"
  shows "\<exists>m\<le>k. fst (run env w) = concat (map (item_trace env w) [0..<m]) @ [Sig_done]"
proof -
  define m where "m = (LEAST x. stop_visible env w x)"
  have "stop_visible env w m"
    unfolding m_def using assms(2) by (rule LeastI)
  moreover have "m \<le> k"
    unfolding m_def using assms(2) by (rule Least_le)
  moreover have "\<forall>j<m. \<not> stop_visible env w j"
    unfolding m_def using not_less_Least by blast
  ultimately show ?thesis
    using run_trace_first_stop [of m w env] assms(1) by auto
qed

subsection \<open>The protocol of one item\<close>

text \<open>
  Claim C3. The events of an item start with \<^verbatim>\<open>Starting\<close> and progress 0 and end with
  the event that the outcome of the download decides: \<^verbatim>\<open>Done\<close> with progress 100 when
  \<^verbatim>\<open>download\<close> returns, \<^verbatim>\<open>Error\<close> with the message \<^verbatim>\<open>"Download failed: "\<close> and the cause when
  it raises \<^verbatim>\<open>DownloadError\<close>, \<^verbatim>\<open>Error\<close> with \<^verbatim>\<open>"An unexpected error occurred: "\<close> and the
  cause when it raises anything else. That last event is the only terminal event of
  the item. Whatever the outcome, when no stop was requested the loop goes on with the
  next row: the item's events are followed by the \<^verbatim>\<open>Starting\<close> event of the next.
\<close>

theorem item_protocol:
  "hd (run_item i s)
     = Sig_update i \<lparr>status = Some ''Starting'', progress = Some 0, speed = None, title = None,
                      error = None\<rparr>
   \<and> (outcome s = None \<longrightarrow>
        last (run_item i s)
          = Sig_update i \<lparr>status = Some ''Done'', progress = Some 100, speed = None, title = None,
                           error = None\<rparr>)
   \<and> (outcome s = Some (DownloadError m) \<longrightarrow>
        last (run_item i s)
          = Sig_update i \<lparr>status = Some ''Error'', progress = None, speed = None, title = None,
                           error = Some (''Download failed: '' @ m)\<rparr>)
   \<and> (outcome s = Some (OtherError m) \<longrightarrow>
        last (run_item i s)
          = Sig_update i \<lparr>status = Some ''Error'', progress = None, speed = None, title = None,
                           error = Some (''An unexpected error occurred: '' @ m)\<rparr>)
   \<and> filter terminal (run_item i s) = [last (run_item i s)]
   \<and> (\<not> stop_flag w \<and> \<not> stop_requested env i \<longrightarrow>
        (\<exists>tr. fst (run_loop env w i (r # r' # rest))
               = run_item i (library env (opts w) i (url r))
                 @ Sig_update (Suc i) \<lparr>status = Some ''Starting'', progress = Some 0, speed = None,
                                        title = None, error = None\<rparr> # tr))"
proof -
  have "hd (run_item i s)
     = Sig_update i \<lparr>status = Some ''Starting'', progress = Some 0, speed = None, title = None,
                      error = None\<rparr>"
    by (simp add: run_item_def no_keys_def)
  moreover have "outcome s = None \<longrightarrow>
        last (run_item i s)
          = Sig_update i \<lparr>status = Some ''Done'', progress = Some 100, speed = None, title = None,
                           error = None\<rparr>"
    by (simp add: run_item_last finish_event_def no_keys_def)
  moreover have "outcome s = Some (DownloadError m) \<longrightarrow>
        last (run_item i s)
          = Sig_update i \<lparr>status = Some ''Error'', progress = None, speed = None, title = None,
                           error = Some (''Download failed: '' @ m)\<rparr>"
    by (simp add: run_item_last finish_event_def no_keys_def)
  moreover have "outcome s = Some (OtherError m) \<longrightarrow>
        last (run_item i s)
          = Sig_update i \<lparr>status = Some ''Error'', progress = None, speed = None, title = None,
                           error = Some (''An unexpected error occurred: '' @ m)\<rparr>"
    by (simp add: run_item_last finish_event_def no_keys_def)
  moreover have "filter terminal (run_item i s) = [last (run_item i s)]"
    by (simp add: run_item_terminal run_item_last)
  moreover have "\<exists>tr. fst (run_loop env w i (r # r' # rest))
               = run_item i (library env (opts w) i (url r))
                 @ Sig_update (Suc i) \<lparr>status = Some ''Starting'', progress = Some 0, speed = None,
                                        title = None, error = None\<rparr> # tr"
    if "\<not> stop_flag w" "\<not> stop_requested env i"
  proof -
    from that have "fst (run_loop env w i (r # r' # rest))
        = run_item i (library env (opts w) i (url r)) @ fst (run_loop env w (Suc i) (r' # rest))"
      using run_loop_step [of w env i r "r' # rest"] by (simp del: run_loop.simps)
    also have "fst (run_loop env w (Suc i) (r' # rest))
        = run_item (Suc i) (library env (opts w) (Suc i) (url r'))
          @ fst (run_loop env (if stop_requested env (Suc i) then stop w else w) (Suc (Suc i)) rest)"
      using that(1) by (rule run_loop_step)
    finally show ?thesis
      by (simp add: run_item_def no_keys_def)
  qed
  ultimately show ?thesis
    by blast
qed

theorem item_protocol_witness:
  "outcome demo_session_failed = Some (DownloadError ''blocked'')
   \<and> last (run_item 1 demo_session_failed)
       = Sig_update 1 \<lparr>status = Some ''Error'', progress = None, speed = None, title = None,
                        error = Some ''Download failed: blocked''\<rparr>
   \<and> \<not> stop_flag demo_worker \<and> \<not> stop_requested quiet_world 0
   \<and> (\<exists>tr. fst (run_loop quiet_world demo_worker 0 demo_rows)
            = run_item 0 demo_session_ok
              @ Sig_update 1 \<lparr>status = Some ''Starting'', progress = Some 0, speed = None,
                               title = None, error = None\<rparr> # tr)"
proof -
  have out: "outcome demo_session_failed = Some (DownloadError ''blocked'')"
    by (simp add: demo_session_failed_def)
  have flag: "\<not> stop_flag demo_worker" and quiet: "\<not> stop_requested quiet_world 0"
    by (simp_all add: demo_worker_def init_def quiet_world_def)
  have lib: "library quiet_world (opts demo_worker) 0 (url \<lparr>url = ''https://example.org/a''\<rparr>)
             = demo_session_ok"
    by (simp add: quiet_world_def demo_library_def)
  from item_protocol [where i = 1 and s = demo_session_failed and m = "''blocked''"]
  have "outcome demo_session_failed = Some (DownloadError ''blocked'') \<longrightarrow>
        last (run_item 1 demo_session_failed)
          = Sig_update 1 \<lparr>status = Some ''Error'', progress = None, speed = None, title = None,
                           error = Some (''Download failed: '' @ ''blocked'')\<rparr>"
    by blast
  moreover
  from item_protocol [where i = 0 and w = demo_worker and env = quiet_world
      and r = "\<lparr>url = ''https://example.org/a''\<rparr>"
      and r' = "\<lparr>url = ''https://example.org/b''\<rparr>" and rest = "[]"]
  have "\<not> stop_flag demo_worker \<and> \<not> stop_requested quiet_world 0 \<longrightarrow>
    (\<exists>tr. fst (run_loop quiet_world demo_worker 0
                 [\<lparr>url = ''https://example.org/a''\<rparr>, \<lparr>url = ''https://example.org/b''\<rparr>])
            = run_item 0 (library quiet_world (opts demo_worker) 0 (url \<lparr>url = ''https://example.org/a''\<rparr>))
              @ Sig_update (Suc 0) \<lparr>status = Some ''Starting'', progress = Some 0, speed = None,
                               title = None, error = None\<rparr> # tr)"
    by blast
  ultimately
  have "last (run_item 1 demo_session_failed)
       = Sig_update 1 \<lparr>status = Some ''Error'', progress = None, speed = None, title = None,
                        error = Some (''Download failed: '' @ ''blocked'')\<rparr>"
    "\<exists>tr. fst (run_loop quiet_world demo_worker 0
                 [\<lparr>url = ''https://example.org/a''\<rparr>, \<lparr>url = ''https://example.org/b''\<rparr>])
            = run_item 0 (library quiet_world (opts demo_worker) 0 (url \<lparr>url = ''https://example.org/a''\<rparr>))
              @ Sig_update (Suc 0) \<lparr>status = Some ''Starting'', progress = Some 0, speed = None,
                               title = None, error = None\<rparr> # tr"
    using out flag quiet by blast+
  with out flag quiet show ?thesis
    unfolding lib by (simp add: demo_rows_def)
qed

text \<open>
  Claim C8, as the code has it. When the title probe raises, the item's events are
  \<^verbatim>\<open>Starting\<close>, the events of the download and the terminal event, exactly as if the
  probe had returned nothing: no event carries a title, and the only event that can
  carry an error is the terminal event of the download. When the probe returns an
  info dictionary with a non-empty title, the title event is emitted right after
  \<^verbatim>\<open>Starting\<close>, before any event of the download, and it is the only event of the item
  that carries a title. When the probe returns nothing, or an info dictionary whose
  title is missing or empty, the events are again \<^verbatim>\<open>Starting\<close>, the events of the
  download and the terminal event, and none carries a title.
\<close>

theorem title_probe:
  "(probe s = Probe_raises e \<longrightarrow>
      run_item i s
        = Sig_update i \<lparr>status = Some ''Starting'', progress = Some 0, speed = None, title = None,
                         error = None\<rparr>
          # download_events i (callbacks s) @ [finish_event i (outcome s)]
      \<and> run_item i s = run_item i (s\<lparr>probe := Probe_returns None\<rparr>)
      \<and> filter has_title (run_item i s) = []
      \<and> filter has_error (run_item i s) = filter has_error [finish_event i (outcome s)])
   \<and> (probe s = Probe_returns (Some nfo) \<and> info_title nfo = Some t \<and> t \<noteq> [] \<longrightarrow>
        run_item i s
          = Sig_update i \<lparr>status = Some ''Starting'', progress = Some 0, speed = None, title = None,
                           error = None\<rparr>
            # Sig_update i \<lparr>status = None, progress = None, speed = None, title = Some t,
                             error = None\<rparr>
            # download_events i (callbacks s) @ [finish_event i (outcome s)]
        \<and> length (filter has_title (run_item i s)) = 1
        \<and> filter has_error (run_item i s) = filter has_error [finish_event i (outcome s)])
   \<and> (probe s = Probe_returns None
        \<or> probe s = Probe_returns (Some nfo) \<and> (info_title nfo = None \<or> info_title nfo = Some [])
      \<longrightarrow>
        run_item i s
          = Sig_update i \<lparr>status = Some ''Starting'', progress = Some 0, speed = None, title = None,
                           error = None\<rparr>
            # download_events i (callbacks s) @ [finish_event i (outcome s)]
        \<and> filter has_title (run_item i s) = []
        \<and> filter has_error (run_item i s) = filter has_error [finish_event i (outcome s)])"
proof -
  have start: "\<not> has_title (Sig_update i (no_keys\<lparr>status := Some ''Starting'', progress := Some 0\<rparr>))"
    "\<not> has_error (Sig_update i (no_keys\<lparr>status := Some ''Starting'', progress := Some 0\<rparr>))"
    by (simp_all add: has_title_def has_error_def no_keys_def)
  have dl: "filter has_title (download_events i (callbacks s)) = []"
    "filter has_error (download_events i (callbacks s)) = []"
    using download_events_props(3) download_events_no_error by (blast intro: filter_none)+
  have fin: "\<not> has_title (finish_event i (outcome s))"
    by (rule finish_event_props)
  have "run_item i s
        = Sig_update i \<lparr>status = Some ''Starting'', progress = Some 0, speed = None, title = None,
                         error = None\<rparr>
          # download_events i (callbacks s) @ [finish_event i (outcome s)]
      \<and> run_item i s = run_item i (s\<lparr>probe := Probe_returns None\<rparr>)
      \<and> filter has_title (run_item i s) = []
      \<and> filter has_error (run_item i s) = filter has_error [finish_event i (outcome s)]"
    if "probe s = Probe_raises e"
    using that start dl fin by (simp add: run_item_def probe_events_def no_keys_def)
  moreover have "run_item i s
          = Sig_update i \<lparr>status = Some ''Starting'', progress = Some 0, speed = None, title = None,
                           error = None\<rparr>
            # Sig_update i \<lparr>status = None, progress = None, speed = None, title = Some t,
                             error = None\<rparr>
            # download_events i (callbacks s) @ [finish_event i (outcome s)]
        \<and> length (filter has_title (run_item i s)) = 1
        \<and> filter has_error (run_item i s) = filter has_error [finish_event i (outcome s)]"
    if "probe s = Probe_returns (Some nfo)" "info_title nfo = Some t" "t \<noteq> []"
  proof -
    have "has_title (Sig_update i (no_keys\<lparr>title := Some t\<rparr>))"
      "\<not> has_error (Sig_update i (no_keys\<lparr>title := Some t\<rparr>))"
      by (simp_all add: has_title_def has_error_def no_keys_def)
    with that start dl fin show ?thesis
      by (simp add: run_item_def probe_events_def no_keys_def)
  qed
  moreover have "run_item i s
          = Sig_update i \<lparr>status = Some ''Starting'', progress = Some 0, speed = None, title = None,
                           error = None\<rparr>
            # download_events i (callbacks s) @ [finish_event i (outcome s)]
        \<and> filter has_title (run_item i s) = []
        \<and> filter has_error (run_item i s) = filter has_error [finish_event i (outcome s)]"
    if "probe_events i (probe s) = []"
    using that start dl fin by (simp add: run_item_def no_keys_def)
  moreover have "probe_events i (probe s) = []"
    if "probe s = Probe_returns None
        \<or> probe s = Probe_returns (Some nfo) \<and> (info_title nfo = None \<or> info_title nfo = Some [])"
    using that by (auto simp: probe_events_def)
  ultimately show ?thesis
    by blast
qed

theorem title_probe_witness:
  "probe demo_session_failed = Probe_raises (OtherError ''timed out'')
   \<and> filter has_title (run_item 1 demo_session_failed) = []
   \<and> run_item 1 demo_session_failed
       = [Sig_update 1 \<lparr>status = Some ''Starting'', progress = Some 0, speed = None, title = None,
                         error = None\<rparr>,
          Sig_update 1 \<lparr>status = Some ''Error'', progress = None, speed = None, title = None,
                         error = Some ''Download failed: blocked''\<rparr>]
   \<and> probe demo_session_ok = Probe_returns (Some \<lparr>info_title = Some ''A''\<rparr>)
   \<and> length (filter has_title (run_item 0 demo_session_ok)) = 1"
proof -
  have p1: "probe demo_session_failed = Probe_raises (OtherError ''timed out'')"
    by (simp add: demo_session_failed_def)
  have p2: "probe demo_session_ok = Probe_returns (Some \<lparr>info_title = Some ''A''\<rparr>)"
    by (simp add: demo_session_ok_def)
  have t: "info_title \<lparr>info_title = Some ''A''\<rparr> = Some ''A''" "''A'' \<noteq> []"
    by simp_all
  from title_probe [where s = demo_session_failed and e = "OtherError ''timed out''" and i = 1] p1
  have "run_item 1 demo_session_failed
        = Sig_update 1 \<lparr>status = Some ''Starting'', progress = Some 0, speed = None, title = None,
                         error = None\<rparr>
          # download_events 1 (callbacks demo_session_failed)
          @ [finish_event 1 (outcome demo_session_failed)]"
    "filter has_title (run_item 1 demo_session_failed) = []"
    by blast+
  moreover from title_probe [where s = demo_session_ok and nfo = "\<lparr>info_title = Some ''A''\<rparr>"
      and t = "''A''" and i = 0] p2 t
  have "length (filter has_title (run_item 0 demo_session_ok)) = 1"
    by blast
  ultimately show ?thesis
    using p1 p2
    by (simp add: demo_session_failed_def download_events_def finish_event_def no_keys_def)
qed

text \<open>
  The claim as the specification words it fails for a probe that does not raise and
  yields no title. \<open>untitled_session t\<close> is an item whose probe returns an info
  dictionary with the title entry \<open>t\<close> and whose download then succeeds at once. With
  an empty title, with no title, and with a probe that returns \<^verbatim>\<open>None\<close> instead of a
  dictionary, the probe has succeeded and yet the item emits \<^verbatim>\<open>Starting\<close> and \<^verbatim>\<open>Done\<close>
  only: no event carries a title.
\<close>

theorem title_probe_counterexample:
  "probe (untitled_session (Some [])) = Probe_returns (Some \<lparr>info_title = Some []\<rparr>)
   \<and> filter has_title (run_item 0 (untitled_session (Some []))) = []
   \<and> length (filter has_title (run_item 0 (untitled_session (Some [])))) \<noteq> 1
   \<and> run_item 0 (untitled_session (Some []))
       = [Sig_update 0 \<lparr>status = Some ''Starting'', progress = Some 0, speed = None, title = None,
                         error = None\<rparr>,
          Sig_update 0 \<lparr>status = Some ''Done'', progress = Some 100, speed = None, title = None,
                         error = None\<rparr>]
   \<and> probe (untitled_session None) = Probe_returns (Some \<lparr>info_title = None\<rparr>)
   \<and> filter has_title (run_item 0 (untitled_session None)) = []
   \<and> filter has_title (run_item 0 ((untitled_session None)\<lparr>probe := Probe_returns None\<rparr>)) = []"
  by (simp add: untitled_session_def run_item_def probe_events_def download_events_def
      finish_event_def no_keys_def has_title_def)

subsection \<open>Whole runs\<close>

text \<open>
  Claim C1. When the worker starts with the flag clear and no stop is requested
  during any item, the trace is the events of row 0, then those of row 1, and so on
  through the last row, followed by the run-finished signal. So it holds as many
  terminal events as there are rows; the events that carry index \<open>i\<close> are exactly the
  events of row \<open>i\<close>, with one terminal event among them; the indices never decrease
  along the trace; and the run-finished signal occurs once, at the end.
\<close>

theorem run_without_stop:
  assumes "\<not> stop_flag w" and "\<forall>i<length (rows w). \<not> stop_requested env i"
  shows "fst (run env w) = concat (map (item_trace env w) [0..<length (rows w)]) @ [Sig_done]
     \<and> length (filter terminal (fst (run env w))) = length (rows w)
     \<and> (\<forall>i<length (rows w).
           filter (\<lambda>s. item_of s = Some i) (fst (run env w)) = item_trace env w i
           \<and> filter (\<lambda>s. terminal s \<and> item_of s = Some i) (fst (run env w))
               = [last (item_trace env w i)])
     \<and> sorted (update_items (fst (run env w)))
     \<and> count_list (fst (run env w)) Sig_done = 1
     \<and> last (fst (run env w)) = Sig_done"
proof -
  have tr: "fst (run env w) = concat (map (item_trace env w) [0..<length (rows w)]) @ [Sig_done]"
    using assms by (rule run_trace_no_stop)
  have "length (filter terminal (fst (run env w))) = length (rows w)"
    unfolding tr by (simp add: terminal_count_items)
  moreover have "\<forall>i<length (rows w).
      filter (\<lambda>s. item_of s = Some i) (fst (run env w)) = item_trace env w i
      \<and> filter (\<lambda>s. terminal s \<and> item_of s = Some i) (fst (run env w)) = [last (item_trace env w i)]"
    unfolding tr by (simp add: filter_item_items filter_terminal_item_items)
  moreover have "sorted (update_items (fst (run env w)))"
    unfolding tr using update_items_items [of env w "length (rows w)"]
    by (simp add: update_items_append)
  moreover have "count_list (fst (run env w)) Sig_done = 1"
    unfolding tr using done_not_in_items [of env w "length (rows w)"]
    by (simp add: count_list_0_iff del: set_concat)
  moreover have "last (fst (run env w)) = Sig_done"
    unfolding tr by simp
  ultimately show ?thesis
    using tr by blast
qed

theorem run_without_stop_witness:
  "\<not> stop_flag demo_worker
   \<and> \<not> stop_requested quiet_world 0 \<and> \<not> stop_requested quiet_world 1
   \<and> length (filter terminal (fst (run quiet_world demo_worker))) = 2
   \<and> sorted (update_items (fst (run quiet_world demo_worker)))
   \<and> count_list (fst (run quiet_world demo_worker)) Sig_done = 1
   \<and> last (fst (run quiet_world demo_worker)) = Sig_done"
proof -
  have flag: "\<not> stop_flag demo_worker"
    by (simp add: demo_worker_def init_def)
  have n: "length (rows demo_worker) = 2"
    by (simp add: demo_worker_def init_def demo_rows_def)
  have quiet: "\<forall>i<length (rows demo_worker). \<not> stop_requested quiet_world i"
    by (simp add: quiet_world_def)
  have here: "\<not> stop_requested quiet_world 0" "\<not> stop_requested quiet_world 1"
    by (simp_all add: quiet_world_def)
  from run_without_stop [OF flag quiet]
  have "length (filter terminal (fst (run quiet_world demo_worker))) = length (rows demo_worker)"
    "sorted (update_items (fst (run quiet_world demo_worker)))"
    "count_list (fst (run quiet_world demo_worker)) Sig_done = 1"
    "last (fst (run quiet_world demo_worker)) = Sig_done"
    by blast+
  with flag here n show ?thesis
    by simp
qed

text \<open>
  Claim C2. Let the flag be set when the loop reads it before item \<open>k\<close>. Then the
  trace consists of the complete events of some first \<open>m \<le> k\<close> rows and the
  run-finished signal, no event carries an index from \<open>k\<close> on, and the run-finished
  signal occurs once, at the end. When item \<open>k\<close> is the first before which the flag
  is seen set, that is, the request came after item \<open>k - 1\<close> had begun, the trace is
  the complete events of the rows \<open>0..k-1\<close>, each with its one terminal event: the
  item in flight when the request arrived ran to its end, because the flag is read
  only between items.
\<close>

theorem run_stopped_before_item:
  assumes "k \<le> length (rows w)" and "stop_visible env w k"
  shows "(\<exists>m\<le>k. fst (run env w) = concat (map (item_trace env w) [0..<m]) @ [Sig_done])
     \<and> ((\<forall>j<k. \<not> stop_visible env w j) \<longrightarrow>
           fst (run env w) = concat (map (item_trace env w) [0..<k]) @ [Sig_done]
           \<and> (\<forall>j<k. filter (\<lambda>s. terminal s \<and> item_of s = Some j) (fst (run env w))
                       = [last (item_trace env w j)]))
     \<and> (\<forall>j\<ge>k. filter (\<lambda>s. item_of s = Some j) (fst (run env w)) = [])
     \<and> count_list (fst (run env w)) Sig_done = 1
     \<and> last (fst (run env w)) = Sig_done"
proof -
  obtain m where m: "m \<le> k"
    and tr: "fst (run env w) = concat (map (item_trace env w) [0..<m]) @ [Sig_done]"
    using run_trace_stop_visible [OF assms] by blast
  have first: "fst (run env w) = concat (map (item_trace env w) [0..<k]) @ [Sig_done]
      \<and> (\<forall>j<k. filter (\<lambda>s. terminal s \<and> item_of s = Some j) (fst (run env w))
                  = [last (item_trace env w j)])"
    if "\<forall>j<k. \<not> stop_visible env w j"
  proof -
    have "fst (run env w) = concat (map (item_trace env w) [0..<k]) @ [Sig_done]"
      using assms that by (rule run_trace_first_stop)
    then show ?thesis
      by (simp add: filter_terminal_item_items)
  qed
  have "\<forall>j\<ge>k. filter (\<lambda>s. item_of s = Some j) (fst (run env w)) = []"
    unfolding tr using m by (simp add: filter_item_items)
  moreover have "count_list (fst (run env w)) Sig_done = 1"
    unfolding tr using done_not_in_items [of env w m]
    by (simp add: count_list_0_iff del: set_concat)
  moreover have "last (fst (run env w)) = Sig_done"
    unfolding tr by simp
  ultimately show ?thesis
    using m tr first by blast
qed

theorem run_stopped_before_item_witness:
  "(1 :: nat) \<le> length (rows demo_worker)
   \<and> stop_visible stopping_world demo_worker 1
   \<and> \<not> stop_visible stopping_world demo_worker 0
   \<and> fst (run stopping_world demo_worker) = item_trace stopping_world demo_worker 0 @ [Sig_done]
   \<and> filter (\<lambda>s. item_of s = Some 1) (fst (run stopping_world demo_worker)) = []
   \<and> count_list (fst (run stopping_world demo_worker)) Sig_done = 1"
proof -
  have n: "1 \<le> length (rows demo_worker)"
    by (simp add: demo_worker_def init_def demo_rows_def)
  have seen: "stop_visible stopping_world demo_worker 1"
    by (simp add: stop_visible_def stopping_world_def)
  have unseen: "\<not> stop_visible stopping_world demo_worker 0"
    by (simp add: stop_visible_def demo_worker_def init_def)
  then have "\<forall>j<1. \<not> stop_visible stopping_world demo_worker j"
    by simp
  with run_stopped_before_item [OF n seen]
  have "fst (run stopping_world demo_worker)
          = concat (map (item_trace stopping_world demo_worker) [0..<1]) @ [Sig_done]"
    "\<forall>j\<ge>1. filter (\<lambda>s. item_of s = Some j) (fst (run stopping_world demo_worker)) = []"
    "count_list (fst (run stopping_world demo_worker)) Sig_done = 1"
    by blast+
  with n seen unseen show ?thesis
    by simp
qed

subsection \<open>\<^verbatim>\<open>stop\<close>\<close>

text \<open>The flag as the loop leaves it: it is set exactly when it was set at the start or
  a request arrived during one of the rows. The loop writes the flag only through
  \<open>stop\<close>, so a flag that is set, at the start or by a request during the run, is
  never cleared.\<close>

lemma run_loop_flag:
  "stop_flag (snd (run_loop env w i rs))
   = (stop_flag w \<or> (\<exists>j<length rs. stop_requested env (i + j)))"
proof (induction rs arbitrary: w i)
  case Nil
  then show ?case by simp
next
  case (Cons r rest)
  show ?case
  proof (cases "stop_flag w")
    case True
    then show ?thesis
      by (simp add: run_loop_stopped del: run_loop.simps)
  next
    case False
    define w' where "w' = (if stop_requested env i then stop w else w)"
    have "snd (run_loop env w i (r # rest)) = snd (run_loop env w' (Suc i) rest)"
      using False by (simp add: w'_def split_beta Let_def)
    then have "stop_flag (snd (run_loop env w i (r # rest)))
               = (stop_flag w' \<or> (\<exists>j<length rest. stop_requested env (Suc i + j)))"
      by (simp only: Cons.IH)
    moreover have "stop_flag w' = stop_requested env i"
      using False by (simp add: w'_def)
    moreover have "(\<exists>j<length (r # rest). stop_requested env (i + j))
                   = (stop_requested env i \<or> (\<exists>j<length rest. stop_requested env (Suc i + j)))"
    proof
      assume "\<exists>j<length (r # rest). stop_requested env (i + j)"
      then obtain j where j: "j < Suc (length rest)" "stop_requested env (i + j)"
        by auto
      show "stop_requested env i \<or> (\<exists>j<length rest. stop_requested env (Suc i + j))"
      proof (cases j)
        case 0
        with j show ?thesis by simp
      next
        case (Suc j')
        with j have "j' < length rest" "stop_requested env (Suc i + j')"
          by simp_all
        then show ?thesis by blast
      qed
    next
      assume "stop_requested env i \<or> (\<exists>j<length rest. stop_requested env (Suc i + j))"
      then show "\<exists>j<length (r # rest). stop_requested env (i + j)"
      proof
        assume "stop_requested env i"
        then have "0 < length (r # rest) \<and> stop_requested env (i + 0)"
          by simp
        then show ?thesis by blast
      next
        assume "\<exists>j<length rest. stop_requested env (Suc i + j)"
        then obtain j where "j < length rest" "stop_requested env (Suc i + j)"
          by blast
        then have "Suc j < length (r # rest) \<and> stop_requested env (i + Suc j)"
          by simp
        then show ?thesis by blast
      qed
    qed
    ultimately show ?thesis
      using False by simp
  qed
qed

text \<open>
  Claim C9. \<open>stop\<close> is idempotent, and any positive number of calls equals one call.
  It sets the flag and changes nothing else of the worker. The flag is monotonic for
  the life of a run: from any position of the loop, the flag at the end is set exactly
  when it was set at that position or a request arrived during one of the remaining
  rows; so a flag that is set at the start of the run, or by a request during any
  row of the run, is still set when the run ends, and only a run that started with a
  clear flag and saw no request ends with a clear flag. A worker whose flag is set is
  not changed by a further \<open>stop\<close>, and the run leaves rows and options as they were.
  A request during an item does not cut the item short: the complete events of the
  item in flight are emitted whether or not a stop is requested during it.
\<close>

theorem stop_idempotent_monotonic:
  "stop (stop w) = stop w
   \<and> (0 < n \<longrightarrow> (stop ^^ n) w = stop w)
   \<and> stop_flag (stop w) \<and> rows (stop w) = rows w \<and> opts (stop w) = opts w
   \<and> (stop_flag w \<longrightarrow> stop_flag (snd (run env w)) \<and> stop w = w)
   \<and> (m < length (rows w) \<and> stop_requested env m \<longrightarrow> stop_flag (snd (run env w)))
   \<and> stop_flag (snd (run env w))
       = (stop_flag w \<or> (\<exists>j<length (rows w). stop_requested env j))
   \<and> stop_flag (snd (run_loop env w i rs))
       = (stop_flag w \<or> (\<exists>j<length rs. stop_requested env (i + j)))
   \<and> rows (snd (run env w)) = rows w \<and> opts (snd (run env w)) = opts w
   \<and> (\<not> stop_flag w \<longrightarrow>
        prefix (run_item i (library env (opts w) i (url r))) (fst (run_loop env w i (r # rest))))"
proof -
  have idem: "stop (stop w) = stop w" for w :: "'a dlworker"
    by (simp add: stop_def)
  have "(stop ^^ n) w = stop w" if "0 < n"
    using that
  proof (induction n)
    case 0
    then show ?case by simp
  next
    case (Suc n)
    then show ?case
      by (cases n) (simp_all add: idem)
  qed
  moreover have fl: "stop_flag (snd (run env w))
       = (stop_flag w \<or> (\<exists>j<length (rows w). stop_requested env j))"
    using run_loop_flag [of env w 0 "rows w"] by (simp add: run_def split_beta)
  moreover have "stop_flag w \<longrightarrow> stop_flag (snd (run env w)) \<and> stop w = w"
    using fl by (simp add: stop_def)
  moreover have "m < length (rows w) \<and> stop_requested env m \<longrightarrow> stop_flag (snd (run env w))"
    using fl by blast
  moreover have "rows (snd (run env w)) = rows w \<and> opts (snd (run env w)) = opts w"
    using run_loop_worker [of env w 0 "rows w"] by (simp add: run_def split_beta)
  moreover have "prefix (run_item i (library env (opts w) i (url r))) (fst (run_loop env w i (r # rest)))"
    if "\<not> stop_flag w"
    unfolding run_loop_step [OF that] by simp
  ultimately show ?thesis
    using idem [of w] run_loop_flag [of env w i rs] by simp
qed

text \<open>The stop button pressed while the first of two rows downloads: the worker
  starts with a clear flag, the first row's events are complete, and the run ends with
  the flag set. With no request the flag is still clear at the end.\<close>

theorem stop_idempotent_monotonic_witness:
  "(0 :: nat) < 3 \<and> (stop ^^ 3) demo_worker = stop demo_worker
   \<and> stop_flag (stop demo_worker)
   \<and> stop_flag (snd (run quiet_world (stop demo_worker)))
   \<and> \<not> stop_flag demo_worker
   \<and> (0 :: nat) < length (rows demo_worker) \<and> stop_requested stopping_world 0
   \<and> stop_flag (snd (run stopping_world demo_worker))
   \<and> \<not> stop_flag (snd (run quiet_world demo_worker))
   \<and> prefix (run_item 0 demo_session_ok) (fst (run_loop stopping_world demo_worker 0 demo_rows))"
proof -
  have flag: "\<not> stop_flag demo_worker" "stop_flag (stop demo_worker)"
    by (simp_all add: demo_worker_def init_def)
  have req: "(0 :: nat) < length (rows demo_worker)" "stop_requested stopping_world 0"
    by (simp_all add: demo_worker_def init_def demo_rows_def stopping_world_def)
  have noreq: "\<not> (\<exists>j<length (rows demo_worker). stop_requested quiet_world j)"
    by (simp add: quiet_world_def)
  have lib: "library stopping_world (opts demo_worker) 0 (url \<lparr>url = ''https://example.org/a''\<rparr>)
             = demo_session_ok"
    by (simp add: stopping_world_def demo_library_def)
  have "(0 :: nat) < 3"
    by simp
  with stop_idempotent_monotonic [where w = demo_worker and n = 3] have "(stop ^^ 3) demo_worker = stop demo_worker"
    by blast
  moreover from stop_idempotent_monotonic [where w = "stop demo_worker" and env = quiet_world] flag
  have "stop_flag (snd (run quiet_world (stop demo_worker)))"
    by blast
  moreover from stop_idempotent_monotonic [where w = demo_worker and env = stopping_world and m = 0] req
  have "stop_flag (snd (run stopping_world demo_worker))"
    by blast
  moreover from stop_idempotent_monotonic [where w = demo_worker and env = quiet_world]
  have "stop_flag (snd (run quiet_world demo_worker))
        = (stop_flag demo_worker \<or> (\<exists>j<length (rows demo_worker). stop_requested quiet_world j))"
    by blast
  with flag noreq have "\<not> stop_flag (snd (run quiet_world demo_worker))"
    by blast
  moreover from stop_idempotent_monotonic [where w = demo_worker and env = stopping_world and i = 0
      and r = "\<lparr>url = ''https://example.org/a''\<rparr>"
      and rest = "[\<lparr>url = ''https://example.org/b''\<rparr>]"] flag
  have "prefix (run_item 0 (library stopping_world (opts demo_worker) 0
                   (url \<lparr>url = ''https://example.org/a''\<rparr>)))
          (fst (run_loop stopping_world demo_worker 0
                  [\<lparr>url = ''https://example.org/a''\<rparr>, \<lparr>url = ''https://example.org/b''\<rparr>]))"
    by blast
  ultimately show ?thesis
    using flag req unfolding lib by (simp add: demo_rows_def)
qed

section \<open>The percentage in \<^verbatim>\<open>Downloading\<close> events\<close>

subsection \<open>What the hook emits\<close>















subsection \<open>The percentages of one item\<close>















end
